theory Spec2Isabelle
  imports Complex_Main
begin

section \<open>The store: tables and rows\<close>

text \<open>
  The ledger of \<^verbatim>\<open>jcoin/josecoin.py\<close> keeps its data in three tables of a relational
  store: \<^verbatim>\<open>accounts\<close>, \<^verbatim>\<open>wallets\<close> and \<^verbatim>\<open>transactions\<close>. A table is a list of rows, a row a
  record of its columns. Amounts are exact decimals, embedded in the rationals; the counters
  are integers. The rows of these tables hold finite amounts; the sentinel of an unbounded
  balance comes with the tables of the section on the store with unbounded balances.
\<close>

record account_row =
  account_id :: int
  account_type :: int
  amount :: rat

record wallet_row =
  user_id :: int
  taxpaid :: rat
  steal_uses :: int
  steal_success :: int

record transaction_row =
  tx_sender :: int
  tx_receiver :: int
  tx_amount :: rat

record db =
  accounts :: "account_row list"
  wallets :: "wallet_row list"
  transactions :: "transaction_row list"

text \<open>\<^verbatim>\<open>class AccountType\<close>: the two account types the module names.\<close>

definition USER :: int where
  "USER = 0"

definition TAXBANK :: int where
  "TAXBANK = 1"

section \<open>Decimals of the request and errors\<close>

text \<open>
  \<^verbatim>\<open>decimal.Decimal(request.json['amount'])\<close> is a finite decimal, an infinity or a NaN.
\<close>

datatype decimal = Finite rat | Infinity | NegInfinity | NaN

text \<open>
  The exceptions a handler can leave with. \<^verbatim>\<open>InputError\<close>, \<^verbatim>\<open>AccountNotFoundError\<close> and
  \<^verbatim>\<open>ConditionError\<close> are the classes of the module \<^verbatim>\<open>errors\<close>; \<^verbatim>\<open>ConditionError\<close> carries the
  two values its message prints (\<^verbatim>\<open>f'Not enough funds: {amount} > {sender_amount}'\<close>).
  \<^verbatim>\<open>InvalidOperation\<close> and \<^verbatim>\<open>Overflow\<close> are the trapped signals of Python's decimal context,
  \<^verbatim>\<open>TypeError\<close> is Python's, \<^verbatim>\<open>UniqueViolationError\<close> and \<^verbatim>\<open>StoreError\<close> (any other failure
  of a call to the store: lost connection, timeout) come from the database driver.
\<close>

datatype error =
    InputError string
  | AccountNotFoundError string
  | ConditionError decimal rat
  | InvalidOperation
  | Overflow
  | TypeError
  | UniqueViolationError
  | StoreError

text \<open>
  Every \<^verbatim>\<open>await request.app.db...\<close> and \<^verbatim>\<open>await conn.execute\<close> is a call to an external
  service and may raise. A handler takes the list \<open>fs\<close> of its store calls that fail:
  \<open>fails fs n\<close> says that the \<open>n\<close>-th store call of the handler (counted from 0 in program
  order) raises. The empty list is a run where the store answers every call.
\<close>

definition fails :: "bool list \<Rightarrow> nat \<Rightarrow> bool" where
  "fails fs n = (n < length fs \<and> fs ! n)"

section \<open>Statements of the store\<close>

text \<open>\<^verbatim>\<open>fetchrow\<close>: the first row of a result, or \<^verbatim>\<open>None\<close>.\<close>

fun fetchrow :: "'a list \<Rightarrow> 'a option" where
  "fetchrow [] = None"
| "fetchrow (x # xs) = Some x"

text \<open>
  Modelled from the spec: the schema of the tables, which the source files do not hold.
  The store enforces uniqueness of \<^verbatim>\<open>account_id\<close>; a new account starts at the store's
  default balance, zero; a new wallet has zero-valued counters.
\<close>

definition insert_account :: "db \<Rightarrow> int \<Rightarrow> int \<Rightarrow> error + db" where
  "insert_account d aid atype =
     (if aid \<in> set (map account_id (accounts d)) then Inl UniqueViolationError
      else Inr (d\<lparr>accounts := accounts d @
                  [\<lparr>account_id = aid, account_type = atype, amount = 0\<rparr>]\<rparr>))"

definition insert_wallet :: "db \<Rightarrow> int \<Rightarrow> db" where
  "insert_wallet d aid =
     d\<lparr>wallets := wallets d @
         [\<lparr>user_id = aid, taxpaid = 0, steal_uses = 0, steal_success = 0\<rparr>]\<rparr>"

text \<open>\<^verbatim>\<open>UPDATE accounts SET amount=accounts.amount + $1 WHERE account_id = $2\<close>\<close>

definition update_amount :: "db \<Rightarrow> rat \<Rightarrow> int \<Rightarrow> db" where
  "update_amount d delta aid =
     d\<lparr>accounts := map (\<lambda>a. if account_id a = aid then a\<lparr>amount := amount a + delta\<rparr> else a)
                        (accounts d)\<rparr>"

text \<open>\<^verbatim>\<open>INSERT INTO transactions (sender, receiver, amount) VALUES ($1, $2, $3)\<close>\<close>

definition insert_transaction :: "db \<Rightarrow> int \<Rightarrow> int \<Rightarrow> rat \<Rightarrow> db" where
  "insert_transaction d sid rid x =
     d\<lparr>transactions := transactions d @ [\<lparr>tx_sender = sid, tx_receiver = rid, tx_amount = x\<rparr>]\<rparr>"

text \<open>\<^verbatim>\<open>SELECT SUM(amount) FROM ...\<close>: NULL over no rows.\<close>

definition sql_sum :: "rat list \<Rightarrow> rat option" where
  "sql_sum xs = (if xs = [] then None else Some (sum_list xs))"

section \<open>get_wallet\<close>

text \<open>The three columns the handler selects from \<^verbatim>\<open>wallets\<close>.\<close>

record wallet_cols =
  c_taxpaid :: rat
  c_steal_uses :: int
  c_steal_success :: int

definition wallet_cols_of :: "wallet_row \<Rightarrow> wallet_cols" where
  "wallet_cols_of w =
     \<lparr>c_taxpaid = taxpaid w, c_steal_uses = steal_uses w, c_steal_success = steal_success w\<rparr>"

text \<open>
  The answer of \<^verbatim>\<open>get_wallet\<close> is the account's columns, merged with the wallet's columns
  for a USER account. \<^verbatim>\<open>dict(wallet)\<close> of a missing wallet row is \<^verbatim>\<open>dict(None)\<close>, a
  \<^verbatim>\<open>TypeError\<close>.
\<close>

definition get_wallet :: "bool list \<Rightarrow> db \<Rightarrow> int \<Rightarrow> error + (account_row \<times> wallet_cols option)" where
  "get_wallet fs d aid =
     (if fails fs 0 then Inl StoreError
      else case fetchrow (filter (\<lambda>a. account_id a = aid) (accounts d)) of
        None \<Rightarrow> Inl (AccountNotFoundError ''Account not found'')
      | Some account \<Rightarrow>
          if account_type account = USER then
            (if fails fs 1 then Inl StoreError
             else case fetchrow (map wallet_cols_of (filter (\<lambda>w. user_id w = aid) (wallets d))) of
               None \<Rightarrow> Inl TypeError
             | Some wallet \<Rightarrow> Inr (account, Some wallet))
          else Inr (account, None))"

section \<open>create_account\<close>

text \<open>
  Two statements, each sent to the pool on its own (\<^verbatim>\<open>request.app.db.execute\<close>), so each
  commits on its own. The status of the first is \<^verbatim>\<open>INSERT 0 1\<close>, whose last word is the
  answer.
\<close>

definition create_account :: "bool list \<Rightarrow> db \<Rightarrow> int \<Rightarrow> int \<Rightarrow> (error + string) \<times> db" where
  "create_account fs d aid atype =
     (if fails fs 0 then (Inl StoreError, d)
      else case insert_account d aid atype of
        Inl e \<Rightarrow> (Inl e, d)
      | Inr d1 \<Rightarrow>
          if atype = 0 then
            (if fails fs 1 then (Inl StoreError, d1)
             else (Inr ''1'', insert_wallet d1 aid))
          else (Inr ''1'', d1))"

section \<open>The decimal context\<close>

text \<open>
  Python's \<^verbatim>\<open>Decimal\<close> operators compute the exact result and round it in the current
  context. The module never changes the context, so it is the default one: 28 significant
  digits, \<^verbatim>\<open>ROUND_HALF_EVEN\<close>, exponents between \<^verbatim>\<open>Emin\<close> and \<^verbatim>\<open>Emax\<close>, \<^verbatim>\<open>Overflow\<close>
  trapped.
\<close>

definition prec :: int where
  "prec = 28"

definition Emax :: int where
  "Emax = 999999"

definition Emin :: int where
  "Emin = - 999999"

definition Etiny :: int where
  "Etiny = Emin - (prec - 1)"

definition Etop :: int where
  "Etop = Emax - (prec - 1)"

definition round_half_even :: "rat \<Rightarrow> int" where
  "round_half_even q =
     (let f = \<lfloor>q\<rfloor>; r = q - of_int f
      in if r < 1 / 2 then f else if 1 / 2 < r then f + 1 else if even f then f else f + 1)"

text \<open>The number of decimal digits of a positive integer (1 for anything below 10).\<close>

function ndigits :: "int \<Rightarrow> nat" where
  "ndigits n = (if n < 10 then 1 else Suc (ndigits (n div 10)))"
  by pat_completeness auto
termination
  by (relation "measure nat") auto

declare ndigits.simps [simp del]

text \<open>
  \<^verbatim>\<open>Decimal.adjusted()\<close>: the exponent of the most significant digit of a non-zero number,
  the \<open>e\<close> with \<open>10 powi e \<le> \<bar>x\<bar> < 10 powi (e + 1)\<close>. With \<open>k\<close> the number of digits of
  the denominator, \<open>\<bar>x\<bar> * 10 ^ k\<close> is at least 1, and its integer part has
  \<open>e + k + 1\<close> digits.
\<close>

definition adjusted :: "rat \<Rightarrow> int" where
  "adjusted x =
     (let k = ndigits (snd (quotient_of \<bar>x\<bar>))
      in int (ndigits \<lfloor>\<bar>x\<bar> * 10 ^ k\<rfloor>) - 1 - int k)"

text \<open>
  \<^verbatim>\<open>Decimal._fix(context)\<close>, on the value: a non-zero number is rounded to a multiple of
  \<open>10 powi e\<close>, where \<open>e\<close> leaves \<open>prec\<close> significant digits and is at least \<open>Etiny\<close>;
  a result beyond \<open>Emax\<close> raises \<^verbatim>\<open>Overflow\<close>.
\<close>

definition dec_fix :: "rat \<Rightarrow> error + rat" where
  "dec_fix x =
     (if x = 0 then Inr 0
      else let e = max (adjusted x - (prec - 1)) Etiny;
               r = sgn x * of_int (round_half_even (\<bar>x\<bar> / 10 powi e)) * 10 powi e
           in if r \<noteq> 0 \<and> Emax < adjusted r then Inl Overflow else Inr r)"

text \<open>
  The ordering comparisons of a \<^verbatim>\<open>Decimal\<close> with a finite number (a float or a finite
  \<^verbatim>\<open>Decimal\<close>) are exact; with a NaN they raise \<^verbatim>\<open>InvalidOperation\<close>.
\<close>

fun dec_lt :: "decimal \<Rightarrow> rat \<Rightarrow> error + bool" where
  "dec_lt (Finite x) y = Inr (x < y)"
| "dec_lt Infinity y = Inr False"
| "dec_lt NegInfinity y = Inr True"
| "dec_lt NaN y = Inl InvalidOperation"

fun dec_gt :: "decimal \<Rightarrow> rat \<Rightarrow> error + bool" where
  "dec_gt (Finite x) y = Inr (y < x)"
| "dec_gt Infinity y = Inr True"
| "dec_gt NegInfinity y = Inr False"
| "dec_gt NaN y = Inl InvalidOperation"

section \<open>transfer\<close>

text \<open>
  The literal \<^verbatim>\<open>0.0009\<close> of \<^verbatim>\<open>if amount < 0.0009\<close> is a binary float: the double nearest to
  9/10000, which is \<open>4150517416584649 / 2 ^ 62\<close>
  (0.00089999999999999997536692664112933925935067236423492431640625).
\<close>

definition float_0_0009 :: rat where
  "float_0_0009 = 4150517416584649 / 4611686018427387904"

text \<open>
  \<^verbatim>\<open>accounts = {a['account_id']: a for a in accs}\<close> and \<^verbatim>\<open>accounts.get(k)\<close>: the last row of
  \<open>accs\<close> with the key.
\<close>

definition dict_get :: "account_row list \<Rightarrow> int \<Rightarrow> account_row option" where
  "dict_get accs k = fetchrow (filter (\<lambda>a. account_id a = k) (rev accs))"

text \<open>
  The handler up to the transaction (lines 103 to 131): the checks, made on one read of the
  two accounts. It yields the amount, the sender's balance and the receiver's balance as
  read. An amount that passes the two comparisons is finite; it is the parameter \<^verbatim>\<open>$1\<close> of
  the statements that follow.
\<close>

definition transfer_validate ::
    "bool list \<Rightarrow> db \<Rightarrow> int \<Rightarrow> int \<Rightarrow> decimal \<Rightarrow> error + (rat \<times> rat \<times> rat)" where
  "transfer_validate fs d sender_id receiver_id amt =
     (if receiver_id = sender_id then Inl (InputError ''Account can not transfer to itself'')
      else
        (case dec_lt amt float_0_0009 of
          Inl e \<Rightarrow> Inl e
        | Inr too_small \<Rightarrow>
            if too_small then Inl (InputError ''Negative amounts are not allowed'')
            else if fails fs 0 then Inl StoreError
            else
              (let accs = filter (\<lambda>a. account_id a = sender_id \<or> account_id a = receiver_id)
                            (accounts d)
               in (case dict_get accs sender_id of
                    None \<Rightarrow> Inl (AccountNotFoundError ''Sender is missing account'')
                  | Some sender \<Rightarrow>
                      (case dict_get accs receiver_id of
                        None \<Rightarrow> Inl (AccountNotFoundError ''Receiver is missing account'')
                      | Some receiver \<Rightarrow>
                          (case dec_gt amt (amount sender) of
                            Inl e \<Rightarrow> Inl e
                          | Inr too_much \<Rightarrow>
                              if too_much then Inl (ConditionError amt (amount sender))
                              else
                                (case amt of
                                  Finite x \<Rightarrow> Inr (x, amount sender, amount receiver)
                                | Infinity \<Rightarrow> Inl StoreError
                                | NegInfinity \<Rightarrow> Inl StoreError
                                | NaN \<Rightarrow> Inl StoreError)))))))"

text \<open>
  The transaction (lines 133 to 151): debit, credit and log, in one atomic unit. A store
  call that fails inside it rolls the whole unit back. The two updates are unconditional.
\<close>

definition transfer_commit :: "bool list \<Rightarrow> db \<Rightarrow> int \<Rightarrow> int \<Rightarrow> rat \<Rightarrow> (error + unit) \<times> db" where
  "transfer_commit fs d sender_id receiver_id x =
     (if fails fs 1 \<or> fails fs 2 \<or> fails fs 3 then (Inl StoreError, d)
      else (Inr (),
            insert_transaction
              (update_amount (update_amount d (- x) sender_id) x receiver_id)
              sender_id receiver_id x))"

text \<open>
  The answer (lines 153 to 156): \<^verbatim>\<open>sender_amount - amount\<close> and
  \<^verbatim>\<open>receiver['amount'] + amount\<close>, computed in Python from the balances read before the
  transaction. The result is the dictionary handed to \<^verbatim>\<open>response.json\<close>; its encoding
  as text is outside the model.
\<close>

record transfer_result =
  sender_amount :: rat
  receiver_amount :: rat

definition transfer_response :: "rat \<Rightarrow> rat \<Rightarrow> rat \<Rightarrow> error + transfer_result" where
  "transfer_response sa ra x =
     (case dec_fix (sa - x) of
        Inl e \<Rightarrow> Inl e
      | Inr s \<Rightarrow>
          (case dec_fix (ra + x) of
             Inl e \<Rightarrow> Inl e
           | Inr r \<Rightarrow> Inr \<lparr>sender_amount = s, receiver_amount = r\<rparr>))"

definition transfer ::
    "bool list \<Rightarrow> db \<Rightarrow> int \<Rightarrow> int \<Rightarrow> decimal \<Rightarrow> (error + transfer_result) \<times> db" where
  "transfer fs d sender_id receiver_id amt =
     (case transfer_validate fs d sender_id receiver_id amt of
        Inl e \<Rightarrow> (Inl e, d)
      | Inr (x, sa, ra) \<Rightarrow>
          (case transfer_commit fs d sender_id receiver_id x of
             (Inl e, d') \<Rightarrow> (Inl e, d')
           | (Inr u, d') \<Rightarrow> (transfer_response sa ra x, d')))"

section \<open>inc_steal_use and inc_steal_success\<close>

text \<open>
  One \<^verbatim>\<open>UPDATE\<close> in a transaction; its status \<^verbatim>\<open>UPDATE n\<close> gives the number \<open>n\<close> of rows
  matched, and the answer is whether \<open>n\<close> is not zero.
\<close>

definition inc_steal_use :: "bool list \<Rightarrow> db \<Rightarrow> int \<Rightarrow> (error + bool) \<times> db" where
  "inc_steal_use fs d wallet_id =
     (if fails fs 0 then (Inl StoreError, d)
      else
        let items = length (filter (\<lambda>w. user_id w = wallet_id) (wallets d));
            d' = d\<lparr>wallets :=
                   map (\<lambda>w. if user_id w = wallet_id then w\<lparr>steal_uses := steal_uses w + 1\<rparr> else w)
                     (wallets d)\<rparr>
        in if items \<noteq> 0 then (Inr True, d') else (Inr False, d'))"

definition inc_steal_success :: "bool list \<Rightarrow> db \<Rightarrow> int \<Rightarrow> (error + bool) \<times> db" where
  "inc_steal_success fs d wallet_id =
     (if fails fs 0 then (Inl StoreError, d)
      else
        let items = length (filter (\<lambda>w. user_id w = wallet_id) (wallets d));
            d' = d\<lparr>wallets :=
                   map (\<lambda>w. if user_id w = wallet_id
                             then w\<lparr>steal_success := steal_success w + 1\<rparr> else w)
                     (wallets d)\<rparr>
        in if items \<noteq> 0 then (Inr True, d') else (Inr False, d'))"

section \<open>getsum, get_gdp and get_sums\<close>

text \<open>Each of \<open>getsum\<close> and \<open>get_gdp\<close> is one query; \<open>f\<close> says whether it fails.\<close>

definition getsum :: "bool \<Rightarrow> db \<Rightarrow> int \<Rightarrow> error + rat option" where
  "getsum f d acc_type =
     (if f then Inl StoreError
      else Inr (sql_sum (map amount (filter (\<lambda>a. account_type a = acc_type) (accounts d)))))"

definition get_gdp :: "bool \<Rightarrow> db \<Rightarrow> error + rat option" where
  "get_gdp f d = (if f then Inl StoreError else Inr (sql_sum (map amount (accounts d))))"

record sums_dict =
  gdp :: "rat option"
  user :: "rat option"
  taxbank :: "rat option"

definition get_sums :: "bool list \<Rightarrow> db \<Rightarrow> error + sums_dict" where
  "get_sums fs d =
     (case get_gdp (fails fs 0) d of
        Inl e \<Rightarrow> Inl e
      | Inr total_amount \<Rightarrow>
          (case getsum (fails fs 1) d USER of
             Inl e \<Rightarrow> Inl e
           | Inr user_amount \<Rightarrow>
               (case getsum (fails fs 2) d TAXBANK of
                  Inl e \<Rightarrow> Inl e
                | Inr txb_amount \<Rightarrow>
                    Inr \<lparr>gdp = total_amount, user = user_amount, taxbank = txb_amount\<rparr>)))"

text \<open>A sum over no rows is NULL; as a number it is read as zero.\<close>

fun null_as_zero :: "rat option \<Rightarrow> rat" where
  "null_as_zero None = 0"
| "null_as_zero (Some x) = x"

section \<open>Concurrent transfers\<close>

text \<open>
  Each request runs as a task of its own, and a task gives way to the others at an
  \<^verbatim>\<open>await\<close>. A transfer has two steps that the store makes atomic: the read of the two
  accounts, with the checks on it, and the transaction. Between the two, other tasks run.
\<close>

datatype task =
    Start int int decimal
  | Checked int int rat rat rat
  | Done "error + transfer_result"

fun step_task :: "db \<Rightarrow> task \<Rightarrow> task \<times> db" where
  "step_task d (Start sender_id receiver_id amt) =
     (case transfer_validate [] d sender_id receiver_id amt of
        Inl e \<Rightarrow> (Done (Inl e), d)
      | Inr (x, sa, ra) \<Rightarrow> (Checked sender_id receiver_id x sa ra, d))"
| "step_task d (Checked sender_id receiver_id x sa ra) =
     (case transfer_commit [] d sender_id receiver_id x of
        (Inl e, d') \<Rightarrow> (Done (Inl e), d')
      | (Inr u, d') \<Rightarrow> (Done (transfer_response sa ra x), d'))"
| "step_task d (Done res) = (Done res, d)"




definition amounts_of :: "db \<Rightarrow> int \<Rightarrow> rat list" where
  "amounts_of d k = map amount (filter (\<lambda>a. account_id a = k) (accounts d))"



section \<open>The store with unbounded balances\<close>

text \<open>
  Modelled from the spec: the \<^verbatim>\<open>amount\<close> column as the data model gives it, a finite decimal
  or the sentinel of an unbounded balance. The sentinel reads in Python as
  \<^verbatim>\<open>Decimal('inf')\<close>; \<^verbatim>\<open>ext/stats.py\<close> leaves the accounts that hold it out of its sums
  (\<^verbatim>\<open>if account['amount'] == inf: continue\<close>). The tables and the handlers of this section
  are those of the sections above with this one column widened, the names prefixed with
  \<open>u\<close>; on a store of finite balances they agree with them (\<open>utransfer_embed\<close>,
  \<open>ucreate_account_embed\<close>, \<open>uinc_steal_embed\<close>).
\<close>

datatype balance = Bounded rat | Unbounded

record uaccount_row =
  uaccount_id :: int
  uaccount_type :: int
  uamount :: balance

record udb =
  uaccounts :: "uaccount_row list"
  uwallets :: "wallet_row list"
  utransactions :: "transaction_row list"

text \<open>
  \<^verbatim>\<open>accounts.amount + $1\<close> in the store, for a finite \<^verbatim>\<open>$1\<close>: an unbounded balance stays
  unbounded.
\<close>

fun balance_plus :: "balance \<Rightarrow> rat \<Rightarrow> balance" where
  "balance_plus (Bounded a) x = Bounded (a + x)"
| "balance_plus Unbounded x = Unbounded"

definition uinsert_account :: "udb \<Rightarrow> int \<Rightarrow> int \<Rightarrow> error + udb" where
  "uinsert_account d aid atype =
     (if aid \<in> set (map uaccount_id (uaccounts d)) then Inl UniqueViolationError
      else Inr (d\<lparr>uaccounts := uaccounts d @
                  [\<lparr>uaccount_id = aid, uaccount_type = atype, uamount = Bounded 0\<rparr>]\<rparr>))"

definition uinsert_wallet :: "udb \<Rightarrow> int \<Rightarrow> udb" where
  "uinsert_wallet d aid =
     d\<lparr>uwallets := uwallets d @
         [\<lparr>user_id = aid, taxpaid = 0, steal_uses = 0, steal_success = 0\<rparr>]\<rparr>"

definition uupdate_amount :: "udb \<Rightarrow> rat \<Rightarrow> int \<Rightarrow> udb" where
  "uupdate_amount d delta aid =
     d\<lparr>uaccounts :=
         map (\<lambda>a. if uaccount_id a = aid then a\<lparr>uamount := balance_plus (uamount a) delta\<rparr> else a)
           (uaccounts d)\<rparr>"

definition uinsert_transaction :: "udb \<Rightarrow> int \<Rightarrow> int \<Rightarrow> rat \<Rightarrow> udb" where
  "uinsert_transaction d sid rid x =
     d\<lparr>utransactions := utransactions d @ [\<lparr>tx_sender = sid, tx_receiver = rid, tx_amount = x\<rparr>]\<rparr>"

text \<open>\<^verbatim>\<open>create_account\<close>, \<^verbatim>\<open>inc_steal_use\<close> and \<^verbatim>\<open>inc_steal_success\<close> on these tables.\<close>

definition ucreate_account :: "bool list \<Rightarrow> udb \<Rightarrow> int \<Rightarrow> int \<Rightarrow> (error + string) \<times> udb" where
  "ucreate_account fs d aid atype =
     (if fails fs 0 then (Inl StoreError, d)
      else case uinsert_account d aid atype of
        Inl e \<Rightarrow> (Inl e, d)
      | Inr d1 \<Rightarrow>
          if atype = 0 then
            (if fails fs 1 then (Inl StoreError, d1)
             else (Inr ''1'', uinsert_wallet d1 aid))
          else (Inr ''1'', d1))"

definition uinc_steal_use :: "bool list \<Rightarrow> udb \<Rightarrow> int \<Rightarrow> (error + bool) \<times> udb" where
  "uinc_steal_use fs d wallet_id =
     (if fails fs 0 then (Inl StoreError, d)
      else
        let items = length (filter (\<lambda>w. user_id w = wallet_id) (uwallets d));
            d' = d\<lparr>uwallets :=
                   map (\<lambda>w. if user_id w = wallet_id then w\<lparr>steal_uses := steal_uses w + 1\<rparr> else w)
                     (uwallets d)\<rparr>
        in if items \<noteq> 0 then (Inr True, d') else (Inr False, d'))"

definition uinc_steal_success :: "bool list \<Rightarrow> udb \<Rightarrow> int \<Rightarrow> (error + bool) \<times> udb" where
  "uinc_steal_success fs d wallet_id =
     (if fails fs 0 then (Inl StoreError, d)
      else
        let items = length (filter (\<lambda>w. user_id w = wallet_id) (uwallets d));
            d' = d\<lparr>uwallets :=
                   map (\<lambda>w. if user_id w = wallet_id
                             then w\<lparr>steal_success := steal_success w + 1\<rparr> else w)
                     (uwallets d)\<rparr>
        in if items \<noteq> 0 then (Inr True, d') else (Inr False, d'))"

text \<open>The finite decimal of a balance that is not the sentinel.\<close>

fun finite_amount :: "balance \<Rightarrow> rat" where
  "finite_amount (Bounded a) = a"
| "finite_amount Unbounded = 0"

text \<open>
  \<^verbatim>\<open>amount > sender_amount\<close>, where \<^verbatim>\<open>sender_amount = decimal.Decimal(sender['amount'])\<close>:
  no amount is greater than the infinity, and a NaN raises as before.
\<close>

fun dec_gt_balance :: "decimal \<Rightarrow> balance \<Rightarrow> error + bool" where
  "dec_gt_balance amt (Bounded a) = dec_gt amt a"
| "dec_gt_balance NaN Unbounded = Inl InvalidOperation"
| "dec_gt_balance amt Unbounded = Inr False"

definition udict_get :: "uaccount_row list \<Rightarrow> int \<Rightarrow> uaccount_row option" where
  "udict_get accs k = fetchrow (filter (\<lambda>a. uaccount_id a = k) (rev accs))"

text \<open>
  \<^verbatim>\<open>transfer\<close> on these tables. The checks are those of lines 103 to 131; the funds of
  an unbounded sender always suffice, so \<^verbatim>\<open>ConditionError\<close> is raised for a finite balance
  only. An amount that passes the checks is finite or, with an unbounded sender, the
  infinity; the infinity is no value of the numeric parameter \<^verbatim>\<open>$1\<close>, so the first
  statement of the transaction raises and the transaction is rolled back.
\<close>

definition utransfer_validate ::
    "bool list \<Rightarrow> udb \<Rightarrow> int \<Rightarrow> int \<Rightarrow> decimal \<Rightarrow> error + (rat \<times> balance \<times> balance)" where
  "utransfer_validate fs d sender_id receiver_id amt =
     (if receiver_id = sender_id then Inl (InputError ''Account can not transfer to itself'')
      else
        (case dec_lt amt float_0_0009 of
          Inl e \<Rightarrow> Inl e
        | Inr too_small \<Rightarrow>
            if too_small then Inl (InputError ''Negative amounts are not allowed'')
            else if fails fs 0 then Inl StoreError
            else
              (let accs = filter (\<lambda>a. uaccount_id a = sender_id \<or> uaccount_id a = receiver_id)
                            (uaccounts d)
               in (case udict_get accs sender_id of
                    None \<Rightarrow> Inl (AccountNotFoundError ''Sender is missing account'')
                  | Some sender \<Rightarrow>
                      (case udict_get accs receiver_id of
                        None \<Rightarrow> Inl (AccountNotFoundError ''Receiver is missing account'')
                      | Some receiver \<Rightarrow>
                          (case dec_gt_balance amt (uamount sender) of
                            Inl e \<Rightarrow> Inl e
                          | Inr too_much \<Rightarrow>
                              if too_much
                              then Inl (ConditionError amt (finite_amount (uamount sender)))
                              else
                                (case amt of
                                  Finite x \<Rightarrow> Inr (x, uamount sender, uamount receiver)
                                | Infinity \<Rightarrow> Inl StoreError
                                | NegInfinity \<Rightarrow> Inl StoreError
                                | NaN \<Rightarrow> Inl StoreError)))))))"

definition utransfer_commit :: "bool list \<Rightarrow> udb \<Rightarrow> int \<Rightarrow> int \<Rightarrow> rat \<Rightarrow> (error + unit) \<times> udb" where
  "utransfer_commit fs d sender_id receiver_id x =
     (if fails fs 1 \<or> fails fs 2 \<or> fails fs 3 then (Inl StoreError, d)
      else (Inr (),
            uinsert_transaction
              (uupdate_amount (uupdate_amount d (- x) sender_id) x receiver_id)
              sender_id receiver_id x))"

text \<open>
  The answer: Python's \<^verbatim>\<open>Decimal\<close> sum of a balance and a finite decimal, rounded in the
  context when the balance is finite; the infinity plus or minus a finite decimal is the
  infinity.
\<close>

fun balance_plus_fix :: "balance \<Rightarrow> rat \<Rightarrow> error + balance" where
  "balance_plus_fix (Bounded a) x =
     (case dec_fix (a + x) of Inl e \<Rightarrow> Inl e | Inr y \<Rightarrow> Inr (Bounded y))"
| "balance_plus_fix Unbounded x = Inr Unbounded"

record utransfer_result =
  usender_amount :: balance
  ureceiver_amount :: balance

definition utransfer_response :: "balance \<Rightarrow> balance \<Rightarrow> rat \<Rightarrow> error + utransfer_result" where
  "utransfer_response sa ra x =
     (case balance_plus_fix sa (- x) of
        Inl e \<Rightarrow> Inl e
      | Inr s \<Rightarrow>
          (case balance_plus_fix ra x of
             Inl e \<Rightarrow> Inl e
           | Inr r \<Rightarrow> Inr \<lparr>usender_amount = s, ureceiver_amount = r\<rparr>))"

definition utransfer ::
    "bool list \<Rightarrow> udb \<Rightarrow> int \<Rightarrow> int \<Rightarrow> decimal \<Rightarrow> (error + utransfer_result) \<times> udb" where
  "utransfer fs d sender_id receiver_id amt =
     (case utransfer_validate fs d sender_id receiver_id amt of
        Inl e \<Rightarrow> (Inl e, d)
      | Inr (x, sa, ra) \<Rightarrow>
          (case utransfer_commit fs d sender_id receiver_id x of
             (Inl e, d') \<Rightarrow> (Inl e, d')
           | (Inr u, d') \<Rightarrow> (utransfer_response sa ra x, d')))"

text \<open>A sequence of transfers, each of which succeeds; \<open>None\<close> as soon as one does not.\<close>

fun utransfers :: "udb \<Rightarrow> (bool list \<times> int \<times> int \<times> decimal) list \<Rightarrow> udb option" where
  "utransfers d [] = Some d"
| "utransfers d ((fs, sender_id, receiver_id, amt) # ts) =
     (case utransfer fs d sender_id receiver_id amt of
        (Inl e, d') \<Rightarrow> None
      | (Inr res, d') \<Rightarrow> utransfers d' ts)"

text \<open>
  The sum of \<^verbatim>\<open>amount\<close> over the non-infinite accounts, and whether the accounts of an id
  are non-infinite.
\<close>

definition non_infinite_supply :: "udb \<Rightarrow> rat" where
  "non_infinite_supply d =
     sum_list (map (\<lambda>a. finite_amount (uamount a))
       (filter (\<lambda>a. uamount a \<noteq> Unbounded) (uaccounts d)))"

definition non_infinite :: "udb \<Rightarrow> int \<Rightarrow> bool" where
  "non_infinite d k = list_all (\<lambda>a. uaccount_id a = k \<longrightarrow> uamount a \<noteq> Unbounded) (uaccounts d)"

text \<open>A store of finite balances, as a store of these tables.\<close>

definition embed_row :: "account_row \<Rightarrow> uaccount_row" where
  "embed_row a =
     \<lparr>uaccount_id = account_id a, uaccount_type = account_type a, uamount = Bounded (amount a)\<rparr>"

definition embed :: "db \<Rightarrow> udb" where
  "embed d =
     \<lparr>uaccounts = map embed_row (accounts d), uwallets = wallets d,
      utransactions = transactions d\<rparr>"

definition embed_result :: "transfer_result \<Rightarrow> utransfer_result" where
  "embed_result res =
     \<lparr>usender_amount = Bounded (sender_amount res),
      ureceiver_amount = Bounded (receiver_amount res)\<rparr>"

section \<open>Example states\<close>

definition db_empty :: db where
  "db_empty = \<lparr>accounts = [], wallets = [], transactions = []\<rparr>"

text \<open>
  The scenario of the specification: USER account 1 with a balance of 100, USER account 2
  with a balance of 0, each with its wallet.
\<close>

definition db_two_users :: db where
  "db_two_users =
     \<lparr>accounts = [\<lparr>account_id = 1, account_type = 0, amount = 100\<rparr>,
                  \<lparr>account_id = 2, account_type = 0, amount = 0\<rparr>],
      wallets = [\<lparr>user_id = 1, taxpaid = 0, steal_uses = 0, steal_success = 0\<rparr>,
                 \<lparr>user_id = 2, taxpaid = 0, steal_uses = 0, steal_success = 0\<rparr>],
      transactions = []\<rparr>"

text \<open>A sender whose balance has 29 digits.\<close>

definition db_large_balance :: db where
  "db_large_balance =
     \<lparr>accounts = [\<lparr>account_id = 1, account_type = 0, amount = 10000000000000000000000000000\<rparr>,
                  \<lparr>account_id = 2, account_type = 0, amount = 0\<rparr>],
      wallets = [], transactions = []\<rparr>"

text \<open>
  A state the handlers themselves produce from \<open>db_two_users\<close>: an account of type 2 is
  created (\<open>create_account\<close> takes any integer as the type) and receives 30 from account 1.
\<close>

definition db_third_type :: db where
  "db_third_type =
     snd (transfer [] (snd (create_account [] db_two_users 3 2)) 1 3 (Finite 30))"

definition db_user_and_taxbank :: db where
  "db_user_and_taxbank =
     \<lparr>accounts = [\<lparr>account_id = 1, account_type = 0, amount = 70\<rparr>,
                  \<lparr>account_id = 2, account_type = 1, amount = 30\<rparr>],
      wallets = [\<lparr>user_id = 1, taxpaid = 0, steal_uses = 2, steal_success = 1\<rparr>],
      transactions = []\<rparr>"

text \<open>
  Two USER accounts with finite balances and a TAXBANK account whose balance is unbounded.
\<close>

definition udb_with_unbounded :: udb where
  "udb_with_unbounded =
     \<lparr>uaccounts = [\<lparr>uaccount_id = 1, uaccount_type = 0, uamount = Bounded 100\<rparr>,
                   \<lparr>uaccount_id = 2, uaccount_type = 0, uamount = Bounded 0\<rparr>,
                   \<lparr>uaccount_id = 3, uaccount_type = 1, uamount = Unbounded\<rparr>],
      uwallets = [\<lparr>user_id = 1, taxpaid = 0, steal_uses = 0, steal_success = 0\<rparr>,
                  \<lparr>user_id = 2, taxpaid = 0, steal_uses = 0, steal_success = 0\<rparr>],
      utransactions = []\<rparr>"

text \<open>A USER account whose wallet row is missing.\<close>

definition db_orphan_user :: db where
  "db_orphan_user =
     \<lparr>accounts = [\<lparr>account_id = 42, account_type = 0, amount = 0\<rparr>],
      wallets = [], transactions = []\<rparr>"

section \<open>Properties of the store and of the lookups\<close>

lemma not_fails_Nil [simp]: "\<not> fails [] n"
  by (simp add: fails_def)

lemma fetchrow_None_iff: "fetchrow xs = None \<longleftrightarrow> xs = []"
  by (cases xs) simp_all

lemma fetchrow_Some_mem: "fetchrow xs = Some x \<Longrightarrow> x \<in> set xs"
  by (cases xs) auto

lemma filter_key_distinct:
  "distinct (map f xs) \<Longrightarrow> x \<in> set xs \<Longrightarrow> filter (\<lambda>a. f a = f x) xs = [x]"
proof (induction xs)
  case Nil
  then show ?case by simp
next
  case (Cons y ys)
  show ?case
  proof (cases "y = x")
    case True
    from Cons.prems(1) have "f y \<notin> f ` set ys" by simp
    then have "\<forall>a \<in> set ys. f a \<noteq> f x" unfolding True by (metis imageI)
    then have "filter (\<lambda>a. f a = f x) ys = []" by (simp add: filter_empty_conv)
    with True show ?thesis by simp
  next
    case False
    with Cons.prems have "x \<in> set ys" and "f y \<noteq> f x" and "distinct (map f ys)" by auto
    with Cons.IH show ?thesis by simp
  qed
qed

lemma dict_get_filter_distinct:
  assumes "distinct (map account_id xs)" and "s \<in> set xs" and "P s"
  shows "dict_get (filter P xs) (account_id s) = Some s"
proof -
  have "filter (\<lambda>a. account_id a = account_id s) (rev (filter P xs))
        = rev (filter P (filter (\<lambda>a. account_id a = account_id s) xs))"
    by (simp add: rev_filter conj_commute)
  also have "\<dots> = [s]"
    using assms by (simp add: filter_key_distinct)
  finally show ?thesis by (simp add: dict_get_def)
qed

lemma dict_get_None:
  "k \<notin> set (map account_id xs) \<Longrightarrow> dict_get (filter P xs) k = None"
proof -
  assume "k \<notin> set (map account_id xs)"
  then have "filter (\<lambda>a. account_id a = k) (rev (filter P xs)) = []"
    by (auto simp: filter_empty_conv)
  then show ?thesis by (simp add: dict_get_def)
qed

lemma dict_get_SomeD:
  "dict_get xs k = Some a \<Longrightarrow> a \<in> set xs \<and> account_id a = k"
  using fetchrow_Some_mem [of "filter (\<lambda>a. account_id a = k) (rev xs)" a]
  by (simp add: dict_get_def)

lemma account_ids_update_amount [simp]:
  "map account_id (accounts (update_amount d delta k)) = map account_id (accounts d)"
  by (simp add: update_amount_def comp_def if_distrib cong: if_cong)

lemma accounts_insert_transaction [simp]:
  "accounts (insert_transaction d sid rid x) = accounts d"
  by (simp add: insert_transaction_def)

section \<open>Properties of the decimal context\<close>

text \<open>
  The digit count brackets its argument between two powers of ten, so \<open>adjusted\<close> is
  the exponent of the leading digit; a number with at most \<open>prec\<close> digits and an
  exponent of the context is left as it is by \<open>dec_fix\<close>.
\<close>

lemma ndigits_pos: "0 < ndigits n"
  by (subst ndigits.simps) simp

lemma ndigits_upper: "n < 10 ^ ndigits n"
proof (induction n rule: ndigits.induct)
  case (1 n)
  show ?case
  proof (cases "n < 10")
    case True
    then show ?thesis by (subst ndigits.simps) simp
  next
    case False
    with 1 have "n div 10 < 10 ^ ndigits (n div 10)" by simp
    then have "n < 10 * 10 ^ ndigits (n div 10)" by linarith
    with False show ?thesis by (subst ndigits.simps) simp
  qed
qed

lemma ndigits_lower: "1 \<le> n \<Longrightarrow> 10 ^ (ndigits n - 1) \<le> n"
proof (induction n rule: ndigits.induct)
  case (1 n)
  show ?case
  proof (cases "n < 10")
    case True
    with "1.prems" show ?thesis by (subst ndigits.simps) simp
  next
    case False
    then have "1 \<le> n div 10" by linarith
    with 1 False have ih: "10 ^ (ndigits (n div 10) - 1) \<le> n div 10" by simp
    have "(10::int) ^ ndigits (n div 10) = 10 * 10 ^ (ndigits (n div 10) - 1)"
      using ndigits_pos [of "n div 10"] by (cases "ndigits (n div 10)") simp_all
    also have "\<dots> \<le> 10 * (n div 10)" using ih by simp
    also have "\<dots> \<le> n" by linarith
    finally show ?thesis using False by (subst ndigits.simps) simp
  qed
qed

lemma adjusted_bounds:
  assumes "x \<noteq> 0"
  shows "10 powi adjusted x \<le> \<bar>x\<bar> \<and> \<bar>x\<bar> < 10 powi (adjusted x + 1)"
proof -
  obtain a b where q: "quotient_of \<bar>x\<bar> = (a, b)" by (cases "quotient_of \<bar>x\<bar>")
  have b: "0 < b" using quotient_of_denom_pos [OF q] .
  have xab: "\<bar>x\<bar> = of_int a / of_int b" using quotient_of_div [OF q] .
  have "0 < \<bar>x\<bar>" using assms by simp
  with b have a: "1 \<le> a" by (simp add: xab zero_less_divide_iff)
  define k where "k = ndigits b"
  define y where "y = \<lfloor>\<bar>x\<bar> * 10 ^ k\<rfloor>"
  define n where "n = ndigits y"
  have "b < 10 ^ k" unfolding k_def by (rule ndigits_upper)
  then have bk: "(of_int b :: rat) \<le> 10 ^ k"
    by (metis less_imp_le of_int_le_iff of_int_numeral of_int_power)
  have "(1::rat) \<le> of_int a * (10 ^ k / of_int b)"
  proof -
    have "(1::rat) \<le> of_int a" using a by simp
    moreover have "(1::rat) \<le> 10 ^ k / of_int b" using b bk by (simp add: le_divide_eq)
    ultimately have "(1::rat) * 1 \<le> of_int a * (10 ^ k / of_int b)"
      by (intro mult_mono) simp_all
    then show ?thesis by simp
  qed
  then have z1: "1 \<le> \<bar>x\<bar> * 10 ^ k" by (simp add: xab)
  then have y1: "1 \<le> y" unfolding y_def by (simp add: le_floor_iff)
  have n1: "1 \<le> n" unfolding n_def using ndigits_pos [of y] by simp
  have "10 ^ (n - 1) \<le> y" unfolding n_def using y1 by (rule ndigits_lower)
  then have "(of_int (10 ^ (n - 1)) :: rat) \<le> \<bar>x\<bar> * 10 ^ k"
    unfolding y_def by (simp only: le_floor_iff)
  then have lo: "(10::rat) ^ (n - 1) \<le> \<bar>x\<bar> * 10 ^ k" by simp
  have "y < 10 ^ n" unfolding n_def by (rule ndigits_upper)
  then have "\<bar>x\<bar> * 10 ^ k < of_int (10 ^ n)"
    unfolding y_def by (simp only: floor_less_iff)
  then have hi: "\<bar>x\<bar> * 10 ^ k < (10::rat) ^ n" by simp
  have adj: "adjusted x = int n - 1 - int k"
    by (simp add: adjusted_def q k_def n_def y_def Let_def)
  have p1: "(10::rat) powi (int n - 1 - int k) = 10 ^ (n - 1) / 10 ^ k"
  proof -
    have "int n - 1 - int k = int (n - 1) - int k" using n1 by simp
    moreover have "(10::rat) powi (int (n - 1) - int k) = 10 powi int (n - 1) / 10 powi int k"
      by (rule power_int_diff) simp
    ultimately show ?thesis by (simp only: power_int_of_nat)
  qed
  have p2: "(10::rat) powi (int n - 1 - int k + 1) = 10 ^ n / 10 ^ k"
  proof -
    have "int n - 1 - int k + 1 = int n - int k" by simp
    moreover have "(10::rat) powi (int n - int k) = 10 powi int n / 10 powi int k"
      by (rule power_int_diff) simp
    ultimately show ?thesis by (simp only: power_int_of_nat)
  qed
  from lo have "(10::rat) ^ (n - 1) / 10 ^ k \<le> \<bar>x\<bar>" by (simp add: divide_le_eq)
  moreover from hi have "\<bar>x\<bar> < (10::rat) ^ n / 10 ^ k" by (simp add: less_divide_eq)
  ultimately show ?thesis by (simp only: adj p1 p2)
qed

lemma adjusted_less:
  assumes "x \<noteq> 0" and "\<bar>x\<bar> < 10 powi j"
  shows "adjusted x < j"
proof (rule ccontr)
  assume "\<not> adjusted x < j"
  then have "(10::rat) powi j \<le> 10 powi adjusted x"
    by (intro power_int_increasing) simp_all
  with adjusted_bounds [OF assms(1)] assms(2) show False by simp
qed

lemma round_half_even_of_int [simp]: "round_half_even (of_int n) = n"
  by (simp add: round_half_even_def)

lemma dec_fix_exact:
  assumes "\<bar>m\<bar> < 10 ^ nat prec" and "Etiny \<le> k" and "k \<le> Etop"
  shows "dec_fix (of_int m * 10 powi k) = Inr (of_int m * 10 powi k)"
proof (cases "m = 0")
  case True
  then show ?thesis by (simp add: dec_fix_def)
next
  case False
  define x :: rat where "x = of_int m * 10 powi k"
  have x0: "x \<noteq> 0" using False by (simp add: x_def)
  have absx: "\<bar>x\<bar> = of_int \<bar>m\<bar> * 10 powi k"
    by (simp add: x_def abs_mult power_int_abs)
  have "(of_int \<bar>m\<bar> :: rat) < of_int (10 ^ nat prec)" using assms(1) by (simp only: of_int_less_iff)
  then have "(of_int \<bar>m\<bar> :: rat) < 10 powi prec" by (simp add: prec_def)
  then have "\<bar>x\<bar> < 10 powi prec * 10 powi k"
    unfolding absx by (intro mult_strict_right_mono) (simp_all add: zero_less_power_int)
  then have "\<bar>x\<bar> < 10 powi (prec + k)" by (simp add: power_int_add)
  then have adj: "adjusted x < prec + k" using x0 by (intro adjusted_less)
  define e where "e = max (adjusted x - (prec - 1)) Etiny"
  have ek: "e \<le> k" using adj assms(2) by (simp add: e_def)
  have "(10::rat) powi (k - e) = 10 powi k / 10 powi e"
    by (rule power_int_diff) simp
  then have "\<bar>x\<bar> / 10 powi e = of_int \<bar>m\<bar> * 10 powi (k - e)"
    by (simp add: absx)
  also have "\<dots> = of_int \<bar>m\<bar> * 10 ^ nat (k - e)"
    using ek by (simp add: power_int_nonneg_exp)
  also have "\<dots> = of_int (\<bar>m\<bar> * 10 ^ nat (k - e))" by simp
  finally have q: "\<bar>x\<bar> / 10 powi e = of_int (\<bar>m\<bar> * 10 ^ nat (k - e))" .
  have "sgn x * of_int (round_half_even (\<bar>x\<bar> / 10 powi e)) * 10 powi e
        = sgn x * (\<bar>x\<bar> / 10 powi e) * 10 powi e"
    by (simp only: q round_half_even_of_int)
  also have "\<dots> = sgn x * \<bar>x\<bar>" by simp
  also have "\<dots> = x" by (simp add: sgn_mult_abs)
  finally have r: "sgn x * of_int (round_half_even (\<bar>x\<bar> / 10 powi e)) * 10 powi e = x" .
  have "adjusted x \<le> Emax" using adj assms(3) by (simp add: Etop_def)
  then show ?thesis
    using x0 r unfolding x_def [symmetric] by (simp add: dec_fix_def Let_def e_def [symmetric])
qed

section \<open>Properties of transfer\<close>

subsection \<open>What a passed validation and a successful transfer say\<close>

lemma transfer_validate_InrD:
  assumes "transfer_validate fs d sid rid amt = Inr (x, sa, ra)"
  shows "rid \<noteq> sid \<and> amt = Finite x \<and> \<not> x < float_0_0009 \<and> \<not> sa < x \<and> \<not> fails fs 0
       \<and> (\<exists>s \<in> set (accounts d). account_id s = sid \<and> amount s = sa)
       \<and> (\<exists>r \<in> set (accounts d). account_id r = rid \<and> amount r = ra)"
proof -
  let ?accs = "filter (\<lambda>a. account_id a = sid \<or> account_id a = rid) (accounts d)"
  from assms have ne: "rid \<noteq> sid"
    by (auto simp: transfer_validate_def split: if_splits)
  from assms ne obtain s r where
    lt: "dec_lt amt float_0_0009 = Inr False" and f: "\<not> fails fs 0"
    and s: "dict_get ?accs sid = Some s" and r: "dict_get ?accs rid = Some r"
    and gt: "dec_gt amt (amount s) = Inr False"
    and res: "amt = Finite x" "sa = amount s" "ra = amount r"
    by (auto simp: transfer_validate_def Let_def
          split: if_splits sum.splits option.splits decimal.splits)
  from dict_get_SomeD [OF s] have "s \<in> set (accounts d)" "account_id s = sid" by auto
  moreover from dict_get_SomeD [OF r] have "r \<in> set (accounts d)" "account_id r = rid" by auto
  ultimately show ?thesis
    using ne lt gt f res by auto
qed

lemma transfer_InrD:
  assumes "transfer fs d sid rid amt = (Inr res, d')"
  shows "\<exists>x sa ra. transfer_validate fs d sid rid amt = Inr (x, sa, ra)
           \<and> transfer_response sa ra x = Inr res
           \<and> d' = insert_transaction (update_amount (update_amount d (- x) sid) x rid) sid rid x"
  using assms
  by (auto simp: transfer_def transfer_commit_def split: sum.splits prod.splits if_splits)

subsection \<open>Rejections\<close>

text \<open>
  C3. For every account \<open>x\<close> and every amount (finite, infinite or NaN), in every state of
  the store and whatever the store does, \<open>transfer\<close> from \<open>x\<close> to \<open>x\<close> raises
  \<open>InputError\<close> and leaves the store as it was: the check comes first, before the amount is
  compared and before any account is read, so neither the balance nor the existence of the
  account matters.
\<close>

theorem transfer_to_itself:
  "transfer fs d x x amt = (Inl (InputError ''Account can not transfer to itself''), d)"
  by (simp add: transfer_def transfer_validate_def)

text \<open>
  C2. When the ids differ, the amount is not below the minimum, the store answers the read
  and both accounts exist, an amount greater than the sender's balance makes \<open>transfer\<close>
  raise \<open>ConditionError\<close>, which carries the amount and the balance it was compared with,
  and the store (so both balances) is unchanged.
\<close>

theorem transfer_insufficient_funds:
  assumes "distinct (map account_id (accounts d))"
    and "s \<in> set (accounts d)" and "r \<in> set (accounts d)"
    and "account_id r \<noteq> account_id s"
    and "dec_lt amt float_0_0009 = Inr False"
    and "\<not> fails fs 0"
    and "dec_gt amt (amount s) = Inr True"
  shows "transfer fs d (account_id s) (account_id r) amt = (Inl (ConditionError amt (amount s)), d)"
proof -
  let ?P = "\<lambda>a. account_id a = account_id s \<or> account_id a = account_id r"
  have s: "dict_get (filter ?P (accounts d)) (account_id s) = Some s"
    using assms(1,2) by (rule dict_get_filter_distinct) simp
  have r: "dict_get (filter ?P (accounts d)) (account_id r) = Some r"
    using assms(1,3) by (rule dict_get_filter_distinct) simp
  show ?thesis
    using assms(4-7) by (simp add: transfer_def transfer_validate_def s r)
qed

theorem transfer_insufficient_funds_witness:
  "transfer [] db_two_users 1 2 (Finite 1000) = (Inl (ConditionError (Finite 1000) 100), db_two_users)"
  using transfer_insufficient_funds
    [of db_two_users "\<lparr>account_id = 1, account_type = 0, amount = 100\<rparr>"
        "\<lparr>account_id = 2, account_type = 0, amount = 0\<rparr>" "Finite 1000" "[]"]
  by (simp add: db_two_users_def float_0_0009_def)

subsection \<open>The minimum amount\<close>

text \<open>
  The guard \<^verbatim>\<open>amount < 0.0009\<close> compares the decimal with a float, exactly. Every amount
  below the float is rejected, among them 0.0005, every negative amount and minus infinity;
  0.0009 itself passes the validation when the sender has it.
\<close>

lemma transfer_below_threshold:
  assumes "rid \<noteq> sid" and "dec_lt amt float_0_0009 = Inr True"
  shows "transfer fs d sid rid amt = (Inl (InputError ''Negative amounts are not allowed''), d)"
  using assms by (simp add: transfer_def transfer_validate_def)

lemma float_0_0009_below: "float_0_0009 < 9 / 10000"
  by (simp add: float_0_0009_def)

lemma transfer_rejects_small_amounts:
  "rid \<noteq> sid \<Longrightarrow> x < float_0_0009 \<Longrightarrow>
   transfer fs d sid rid (Finite x) = (Inl (InputError ''Negative amounts are not allowed''), d)"
  by (rule transfer_below_threshold) simp_all

lemma transfer_rejects_0_0005:
  "rid \<noteq> sid \<Longrightarrow>
   transfer fs d sid rid (Finite (5 / 10000)) = (Inl (InputError ''Negative amounts are not allowed''), d)"
  by (rule transfer_rejects_small_amounts) (simp_all add: float_0_0009_def)

lemma transfer_rejects_negative:
  "rid \<noteq> sid \<Longrightarrow> x < 0 \<Longrightarrow>
   transfer fs d sid rid (Finite x) = (Inl (InputError ''Negative amounts are not allowed''), d)"
  by (rule transfer_rejects_small_amounts) (simp_all add: float_0_0009_def)

lemma transfer_validate_accepts_0_0009:
  assumes "distinct (map account_id (accounts d))"
    and "s \<in> set (accounts d)" and "r \<in> set (accounts d)"
    and "account_id r \<noteq> account_id s" and "\<not> fails fs 0" and "9 / 10000 \<le> amount s"
  shows "transfer_validate fs d (account_id s) (account_id r) (Finite (9 / 10000))
         = Inr (9 / 10000, amount s, amount r)"
proof -
  let ?P = "\<lambda>a. account_id a = account_id s \<or> account_id a = account_id r"
  have s: "dict_get (filter ?P (accounts d)) (account_id s) = Some s"
    using assms(1,2) by (rule dict_get_filter_distinct) simp
  have r: "dict_get (filter ?P (accounts d)) (account_id r) = Some r"
    using assms(1,3) by (rule dict_get_filter_distinct) simp
  show ?thesis
    using assms(4-6) by (simp add: transfer_validate_def s r float_0_0009_def)
qed

text \<open>
  C4. The float \<^verbatim>\<open>0.0009\<close> is smaller than the decimal 0.0009, so the decimals in between
  are below the minimum of 0.0009 and are accepted all the same: from account 1 (balance 100)
  to account 2, the amount 0.00089999999999999999998 is transferred, where the minimum asks
  for \<open>InputError\<close>.
\<close>

theorem transfer_accepts_amount_below_0_0009:
  "(89999999999999999998 / 100000000000000000000000 :: rat) < 9 / 10000
   \<and> fst (transfer [] db_two_users 1 2 (Finite (89999999999999999998 / 100000000000000000000000)))
       = Inr \<lparr>sender_amount = 9999910000000000000000002 / 100000000000000000000000,
              receiver_amount = 89999999999999999998 / 100000000000000000000000\<rparr>"
  by code_simp

subsection \<open>The answer of a transfer\<close>

text \<open>
  The answer of a successful transfer is computed by Python's \<^verbatim>\<open>Decimal\<close> operators,
  which round to 28 significant digits. With a balance of 29 digits the sender's amount in
  the answer is not the balance minus the amount.
\<close>

theorem transfer_answer_counterexample:
  "fst (transfer [] db_large_balance 1 2 (Finite (1 / 1000)))
     = Inr \<lparr>sender_amount = 10000000000000000000000000000, receiver_amount = 1 / 1000\<rparr>
   \<and> (10000000000000000000000000000 :: rat) \<noteq> 10000000000000000000000000000 - 1 / 1000"
  by code_simp

text \<open>
  C5, as amended. In a store with unique account ids, a successful transfer answers with the
  sender's balance minus the amount and the receiver's balance plus the amount, both taken
  from the balances read before the transaction and each rounded by the decimal context
  (half-even, to 28 significant digits). The rounding changes nothing when the exact value
  is a coefficient of at most 28 digits times a power of ten within the context's exponents,
  and then the answer is exactly the balance read minus, or plus, the amount. The answer
  depends on the balances read by the checks only: whatever the store holds when the
  transaction runs, the task answers the same. For the scenario (balances 100 and 0, amount
  30) the answer is 70 and 30.
\<close>

theorem transfer_answer_rounded_snapshot:
  assumes "distinct (map account_id (accounts d))"
    and "s \<in> set (accounts d)" and "r \<in> set (accounts d)"
    and "transfer fs d (account_id s) (account_id r) amt = (Inr res, d')"
  shows "\<exists>x. amt = Finite x
           \<and> dec_fix (amount s - x) = Inr (sender_amount res)
           \<and> dec_fix (amount r + x) = Inr (receiver_amount res)
           \<and> (\<forall>m k. amount s - x = of_int m * 10 powi k \<and> \<bar>m\<bar> < 10 ^ nat prec
                     \<and> Etiny \<le> k \<and> k \<le> Etop \<longrightarrow> sender_amount res = amount s - x)
           \<and> (\<forall>m k. amount r + x = of_int m * 10 powi k \<and> \<bar>m\<bar> < 10 ^ nat prec
                     \<and> Etiny \<le> k \<and> k \<le> Etop \<longrightarrow> receiver_amount res = amount r + x)
           \<and> (\<forall>d2. fst (step_task d2 (Checked (account_id s) (account_id r) x (amount s) (amount r)))
                     = Done (Inr res))"
proof -
  from transfer_InrD [OF assms(4)] obtain x sa ra where
    v: "transfer_validate fs d (account_id s) (account_id r) amt = Inr (x, sa, ra)"
    and resp: "transfer_response sa ra x = Inr res"
    by blast
  from transfer_validate_InrD [OF v] obtain s' r' where
    amt: "amt = Finite x"
    and s': "s' \<in> set (accounts d)" "account_id s' = account_id s" "amount s' = sa"
    and r': "r' \<in> set (accounts d)" "account_id r' = account_id r" "amount r' = ra"
    by blast
  have "s' \<in> set (filter (\<lambda>a. account_id a = account_id s) (accounts d))"
    using s'(1,2) by simp
  with filter_key_distinct [OF assms(1,2)] have "s' = s" by simp
  moreover have "r' \<in> set (filter (\<lambda>a. account_id a = account_id r) (accounts d))"
    using r'(1,2) by simp
  with filter_key_distinct [OF assms(1,3)] have "r' = r" by simp
  ultimately have sa: "sa = amount s" and ra: "ra = amount r" using s'(3) r'(3) by simp_all
  from resp have fs: "dec_fix (amount s - x) = Inr (sender_amount res)"
    and fr: "dec_fix (amount r + x) = Inr (receiver_amount res)"
    by (auto simp: transfer_response_def sa ra split: sum.splits)
  have es: "sender_amount res = amount s - x"
    if "amount s - x = of_int m * 10 powi k" "\<bar>m\<bar> < 10 ^ nat prec" "Etiny \<le> k" "k \<le> Etop" for m k
    using dec_fix_exact [OF that(2-4)] fs by (simp add: that(1) [symmetric])
  have er: "receiver_amount res = amount r + x"
    if "amount r + x = of_int m * 10 powi k" "\<bar>m\<bar> < 10 ^ nat prec" "Etiny \<le> k" "k \<le> Etop" for m k
    using dec_fix_exact [OF that(2-4)] fr by (simp add: that(1) [symmetric])
  have st: "fst (step_task d2 (Checked (account_id s) (account_id r) x (amount s) (amount r)))
            = Done (Inr res)" for d2
    using resp by (simp add: transfer_commit_def sa ra)
  from amt fs fr es er st show ?thesis by blast
qed

theorem transfer_answer_rounded_snapshot_witness:
  "transfer [] db_two_users 1 2 (Finite 30)
     = (Inr \<lparr>sender_amount = 70, receiver_amount = 30\<rparr>,
        \<lparr>accounts = [\<lparr>account_id = 1, account_type = 0, amount = 70\<rparr>,
                     \<lparr>account_id = 2, account_type = 0, amount = 30\<rparr>],
         wallets = wallets db_two_users,
         transactions = [\<lparr>tx_sender = 1, tx_receiver = 2, tx_amount = 30\<rparr>]\<rparr>)
   \<and> dec_fix (100 - 30) = Inr 70 \<and> dec_fix (0 + 30) = Inr 30"
proof -
  let ?s = "\<lparr>account_id = 1, account_type = 0, amount = 100\<rparr>"
  let ?r = "\<lparr>account_id = 2, account_type = 0, amount = 0\<rparr>"
  let ?d' = "\<lparr>accounts = [\<lparr>account_id = 1, account_type = 0, amount = 70\<rparr>,
                     \<lparr>account_id = 2, account_type = 0, amount = 30\<rparr>],
         wallets = wallets db_two_users,
         transactions = [\<lparr>tx_sender = 1, tx_receiver = 2, tx_amount = 30\<rparr>]\<rparr>"
  have h: "distinct (map account_id (accounts db_two_users))"
    and s: "?s \<in> set (accounts db_two_users)" and r: "?r \<in> set (accounts db_two_users)"
    by (simp_all add: db_two_users_def)
  have t: "transfer [] db_two_users 1 2 (Finite 30)
      = (Inr \<lparr>sender_amount = 70, receiver_amount = 30\<rparr>, ?d')"
    by code_simp
  then have "transfer [] db_two_users (account_id ?s) (account_id ?r) (Finite 30)
      = (Inr \<lparr>sender_amount = 70, receiver_amount = 30\<rparr>, ?d')"
    by simp
  from transfer_answer_rounded_snapshot [OF h s r this] t show ?thesis by auto
qed

subsection \<open>Concurrent transfers\<close>







lemma amounts_of_insert_transaction [simp]:
  "amounts_of (insert_transaction d sid rid x) j = amounts_of d j"
  by (simp add: amounts_of_def insert_transaction_def)














section \<open>Properties of the store with unbounded balances\<close>

subsection \<open>The handlers on a store of finite balances\<close>

lemma fetchrow_map: "fetchrow (map f xs) = map_option f (fetchrow xs)"
  by (cases xs) simp_all

lemma udict_get_embed:
  "udict_get (map embed_row ys) k = map_option embed_row (dict_get ys k)"
proof -
  have "filter (\<lambda>a. uaccount_id a = k) (map embed_row (rev ys))
        = map embed_row (filter (\<lambda>a. account_id a = k) (rev ys))"
    by (simp add: filter_map comp_def embed_row_def)
  then show ?thesis
    by (simp add: udict_get_def dict_get_def rev_map fetchrow_map)
qed

lemma filter_pair_embed:
  "filter (\<lambda>a. uaccount_id a = sid \<or> uaccount_id a = rid) (map embed_row xs)
   = map embed_row (filter (\<lambda>a. account_id a = sid \<or> account_id a = rid) xs)"
  by (simp add: filter_map comp_def embed_row_def)

lemma utransfer_validate_embed:
  "utransfer_validate fs (embed d) sid rid amt
   = (case transfer_validate fs d sid rid amt of
        Inl e \<Rightarrow> Inl e
      | Inr (x, sa, ra) \<Rightarrow> Inr (x, Bounded sa, Bounded ra))"
proof -
  have acc: "uaccounts (embed d) = map embed_row (accounts d)" by (simp add: embed_def)
  show ?thesis
    unfolding utransfer_validate_def transfer_validate_def acc filter_pair_embed udict_get_embed
      Let_def
    by (auto simp: embed_row_def split: sum.splits option.splits decimal.splits)
qed

lemma uupdate_amount_embed:
  "uupdate_amount (embed d) delta k = embed (update_amount d delta k)"
  by (simp add: uupdate_amount_def update_amount_def embed_def embed_row_def comp_def
      if_distrib cong: if_cong)

lemma uinsert_transaction_embed:
  "uinsert_transaction (embed d) sid rid x = embed (insert_transaction d sid rid x)"
  by (simp add: uinsert_transaction_def insert_transaction_def embed_def)

lemma utransfer_response_embed:
  "utransfer_response (Bounded sa) (Bounded ra) x
   = (case transfer_response sa ra x of Inl e \<Rightarrow> Inl e | Inr res \<Rightarrow> Inr (embed_result res))"
  by (simp add: utransfer_response_def transfer_response_def embed_result_def split: sum.splits)

text \<open>
  On a store of finite balances the handlers on the tables with the sentinel do what the
  handlers on the tables of finite amounts do.
\<close>

lemma utransfer_embed:
  "utransfer fs (embed d) sid rid amt
   = (case transfer fs d sid rid amt of
        (Inl e, d') \<Rightarrow> (Inl e, embed d')
      | (Inr res, d') \<Rightarrow> (Inr (embed_result res), embed d'))"
  by (simp add: utransfer_def transfer_def utransfer_validate_embed utransfer_commit_def
      transfer_commit_def uupdate_amount_embed uinsert_transaction_embed utransfer_response_embed
      split: sum.splits prod.splits)

lemma uinsert_account_embed:
  "uinsert_account (embed d) aid atype
   = (case insert_account d aid atype of Inl e \<Rightarrow> Inl e | Inr d1 \<Rightarrow> Inr (embed d1))"
  by (simp add: uinsert_account_def insert_account_def embed_def embed_row_def comp_def)

lemma uinsert_wallet_embed: "uinsert_wallet (embed d) aid = embed (insert_wallet d aid)"
  by (simp add: uinsert_wallet_def insert_wallet_def embed_def)

lemma ucreate_account_embed:
  "ucreate_account fs (embed d) aid atype
   = (case create_account fs d aid atype of (res, d') \<Rightarrow> (res, embed d'))"
  by (simp add: ucreate_account_def create_account_def uinsert_account_embed uinsert_wallet_embed
      split: sum.splits)

lemma uinc_steal_embed:
  "uinc_steal_use fs (embed d) u
   = (case inc_steal_use fs d u of (res, d') \<Rightarrow> (res, embed d'))"
  "uinc_steal_success fs (embed d) u
   = (case inc_steal_success fs d u of (res, d') \<Rightarrow> (res, embed d'))"
  by (simp_all add: uinc_steal_use_def inc_steal_use_def uinc_steal_success_def
      inc_steal_success_def embed_def Let_def)

subsection \<open>Conservation\<close>

lemma sum_list_filter_zero:
  fixes g :: "'a \<Rightarrow> rat"
  assumes "\<And>x. \<not> P x \<Longrightarrow> g x = 0"
  shows "sum_list (map g (filter P xs)) = sum_list (map g xs)"
  by (induction xs) (simp_all add: assms)

lemma non_infinite_supply_all:
  "non_infinite_supply d = sum_list (map (\<lambda>a. finite_amount (uamount a)) (uaccounts d))"
  unfolding non_infinite_supply_def by (rule sum_list_filter_zero) simp

lemma sum_list_update_key:
  fixes g :: "'a \<Rightarrow> rat"
  assumes "distinct (map f xs)" and "s \<in> set xs"
  shows "sum_list (map g (map (\<lambda>a. if f a = f s then h a else a) xs))
         = sum_list (map g xs) + (g (h s) - g s)"
  using assms
proof (induction xs)
  case Nil
  then show ?case by simp
next
  case (Cons y ys)
  show ?case
  proof (cases "y = s")
    case True
    from Cons.prems(1) have "f y \<notin> f ` set ys" by simp
    then have "\<forall>a \<in> set ys. f a \<noteq> f s" unfolding True by (metis imageI)
    then have "map (\<lambda>a. if f a = f s then h a else a) ys = ys"
      by (intro map_idI) simp
    with True show ?thesis by simp
  next
    case False
    with Cons.prems have "s \<in> set ys" and "f y \<noteq> f s" and "distinct (map f ys)" by auto
    with Cons.IH show ?thesis by simp
  qed
qed

lemma uaccount_ids_uupdate_amount [simp]:
  "map uaccount_id (uaccounts (uupdate_amount d delta k)) = map uaccount_id (uaccounts d)"
  by (simp add: uupdate_amount_def comp_def if_distrib cong: if_cong)

lemma finite_amount_balance_plus:
  "finite_amount (balance_plus b x) - finite_amount b = (if b = Unbounded then 0 else x)"
  by (cases b) simp_all

lemma non_infinite_supply_uupdate_amount:
  assumes "distinct (map uaccount_id (uaccounts d))" and "s \<in> set (uaccounts d)"
  shows "non_infinite_supply (uupdate_amount d delta (uaccount_id s))
         = non_infinite_supply d + (if uamount s = Unbounded then 0 else delta)"
proof -
  have "sum_list (map (\<lambda>a. finite_amount (uamount a))
          (map (\<lambda>a. if uaccount_id a = uaccount_id s
                     then a\<lparr>uamount := balance_plus (uamount a) delta\<rparr> else a) (uaccounts d)))
        = sum_list (map (\<lambda>a. finite_amount (uamount a)) (uaccounts d))
          + (finite_amount (uamount (s\<lparr>uamount := balance_plus (uamount s) delta\<rparr>))
             - finite_amount (uamount s))"
    using assms by (rule sum_list_update_key)
  then show ?thesis
    by (simp add: non_infinite_supply_all uupdate_amount_def finite_amount_balance_plus
        del: map_map)
qed

lemma uaccounts_uinsert_transaction [simp]:
  "uaccounts (uinsert_transaction d sid rid x) = uaccounts d"
  by (simp add: uinsert_transaction_def)

lemma non_infinite_supply_uinsert_transaction [simp]:
  "non_infinite_supply (uinsert_transaction d sid rid x) = non_infinite_supply d"
  by (simp add: non_infinite_supply_def)

lemma udict_get_SomeD:
  "udict_get xs k = Some a \<Longrightarrow> a \<in> set xs \<and> uaccount_id a = k"
  using fetchrow_Some_mem [of "filter (\<lambda>a. uaccount_id a = k) (rev xs)" a]
  by (simp add: udict_get_def)

lemma utransfer_validate_InrD:
  assumes "utransfer_validate fs d sid rid amt = Inr (x, sa, ra)"
  shows "rid \<noteq> sid \<and> amt = Finite x \<and> \<not> x < float_0_0009 \<and> \<not> fails fs 0
       \<and> (\<exists>s \<in> set (uaccounts d). uaccount_id s = sid \<and> uamount s = sa)
       \<and> (\<exists>r \<in> set (uaccounts d). uaccount_id r = rid \<and> uamount r = ra)"
proof -
  let ?accs = "filter (\<lambda>a. uaccount_id a = sid \<or> uaccount_id a = rid) (uaccounts d)"
  from assms have ne: "rid \<noteq> sid"
    by (auto simp: utransfer_validate_def split: if_splits)
  from assms ne obtain s r where
    lt: "dec_lt amt float_0_0009 = Inr False" and f: "\<not> fails fs 0"
    and s: "udict_get ?accs sid = Some s" and r: "udict_get ?accs rid = Some r"
    and res: "amt = Finite x" "sa = uamount s" "ra = uamount r"
    by (auto simp: utransfer_validate_def Let_def
          split: if_splits sum.splits option.splits decimal.splits)
  from udict_get_SomeD [OF s] have "s \<in> set (uaccounts d)" "uaccount_id s = sid" by auto
  moreover from udict_get_SomeD [OF r] have "r \<in> set (uaccounts d)" "uaccount_id r = rid" by auto
  ultimately show ?thesis
    using ne lt f res by auto
qed

lemma utransfer_InrD:
  assumes "utransfer fs d sid rid amt = (Inr res, d')"
  shows "\<exists>x sa ra. utransfer_validate fs d sid rid amt = Inr (x, sa, ra)
           \<and> utransfer_response sa ra x = Inr res
           \<and> d' = uinsert_transaction (uupdate_amount (uupdate_amount d (- x) sid) x rid) sid rid x"
  using assms
  by (auto simp: utransfer_def utransfer_commit_def split: sum.splits prod.splits if_splits)

lemma utransfer_moves:
  assumes "distinct (map uaccount_id (uaccounts d))"
    and "utransfer fs d sid rid amt = (Inr res, d1)"
  shows "\<exists>x s r. amt = Finite x
           \<and> s \<in> set (uaccounts d) \<and> uaccount_id s = sid
           \<and> r \<in> set (uaccounts d) \<and> uaccount_id r = rid
           \<and> uaccounts d1 =
               map (\<lambda>a. if uaccount_id a = sid then a\<lparr>uamount := balance_plus (uamount a) (- x)\<rparr>
                         else if uaccount_id a = rid then a\<lparr>uamount := balance_plus (uamount a) x\<rparr>
                         else a)
                 (uaccounts d)
           \<and> non_infinite_supply d1 =
               non_infinite_supply d + (if uamount s = Unbounded then x else 0)
                 - (if uamount r = Unbounded then x else 0)"
proof -
  from utransfer_InrD [OF assms(2)] obtain x sa ra where
    v: "utransfer_validate fs d sid rid amt = Inr (x, sa, ra)"
    and d1: "d1 = uinsert_transaction (uupdate_amount (uupdate_amount d (- x) sid) x rid) sid rid x"
    by blast
  from utransfer_validate_InrD [OF v] obtain s r where
    ne: "rid \<noteq> sid" and amt: "amt = Finite x"
    and s: "s \<in> set (uaccounts d)" "uaccount_id s = sid"
    and r: "r \<in> set (uaccounts d)" "uaccount_id r = rid"
    by blast
  let ?da = "uupdate_amount d (- x) sid"
  have acc: "uaccounts d1 =
      map (\<lambda>a. if uaccount_id a = sid then a\<lparr>uamount := balance_plus (uamount a) (- x)\<rparr>
                else if uaccount_id a = rid then a\<lparr>uamount := balance_plus (uamount a) x\<rparr>
                else a)
        (uaccounts d)"
    using ne by (auto simp: d1 uupdate_amount_def)
  have sa: "non_infinite_supply ?da
            = non_infinite_supply d + (if uamount s = Unbounded then 0 else - x)"
    using non_infinite_supply_uupdate_amount [OF assms(1) s(1), of "- x"] by (simp only: s(2))
  have da: "distinct (map uaccount_id (uaccounts ?da))" using assms(1) by simp
  have rda: "r \<in> set (uaccounts ?da)"
  proof -
    define f :: "uaccount_row \<Rightarrow> uaccount_row" where
      "f = (\<lambda>a. if uaccount_id a = sid then a\<lparr>uamount := balance_plus (uamount a) (- x)\<rparr> else a)"
    have "f r = r" using ne r(2) by (simp add: f_def)
    with r(1) have "r \<in> f ` set (uaccounts d)" by (metis imageI)
    then show ?thesis by (simp add: uupdate_amount_def f_def)
  qed
  have "non_infinite_supply (uupdate_amount ?da x rid)
        = non_infinite_supply ?da + (if uamount r = Unbounded then 0 else x)"
    using non_infinite_supply_uupdate_amount [OF da rda, of x] by (simp only: r(2))
  with sa have "non_infinite_supply d1 =
      non_infinite_supply d + (if uamount s = Unbounded then x else 0)
        - (if uamount r = Unbounded then x else 0)"
    by (simp add: d1)
  with amt s r acc show ?thesis by blast
qed

lemma list_all_map_same:
  "(\<And>a. P (F a) = P a) \<Longrightarrow> list_all P (map F xs) = list_all P xs"
  by (induction xs) simp_all

lemma non_infinite_uupdate_amount [simp]:
  "non_infinite (uupdate_amount d delta j) k = non_infinite d k"
proof -
  have bp: "balance_plus b y \<noteq> Unbounded \<longleftrightarrow> b \<noteq> Unbounded" for b y
    by (cases b) simp_all
  have acc: "uaccounts (uupdate_amount d delta j)
        = map (\<lambda>a. if uaccount_id a = j then a\<lparr>uamount := balance_plus (uamount a) delta\<rparr> else a)
            (uaccounts d)"
    by (simp add: uupdate_amount_def)
  show ?thesis
    unfolding non_infinite_def acc by (rule list_all_map_same) (simp add: bp)
qed

lemma non_infinite_uinsert_transaction [simp]:
  "non_infinite (uinsert_transaction d sid rid x) k = non_infinite d k"
  by (simp add: non_infinite_def)

lemma non_infinite_utransfer:
  assumes "utransfer fs d sid rid amt = (Inr res, d1)"
  shows "non_infinite d1 k = non_infinite d k"
proof -
  from utransfer_InrD [OF assms] obtain x where
    d1: "d1 = uinsert_transaction (uupdate_amount (uupdate_amount d (- x) sid) x rid) sid rid x"
    by blast
  show ?thesis by (simp add: d1)
qed

lemma non_infinite_D:
  "non_infinite d k \<Longrightarrow> s \<in> set (uaccounts d) \<Longrightarrow> uaccount_id s = k \<Longrightarrow> uamount s \<noteq> Unbounded"
  by (auto simp: non_infinite_def list_all_iff)

lemma utransfer_ids:
  assumes "utransfer fs d sid rid amt = (Inr res, d1)"
  shows "map uaccount_id (uaccounts d1) = map uaccount_id (uaccounts d)"
proof -
  from utransfer_InrD [OF assms] obtain x where
    "d1 = uinsert_transaction (uupdate_amount (uupdate_amount d (- x) sid) x rid) sid rid x"
    by blast
  then show ?thesis by simp
qed

lemma utransfers_conserve:
  "distinct (map uaccount_id (uaccounts d)) \<Longrightarrow>
   list_all (\<lambda>(fs, sid, rid, amt). non_infinite d sid \<and> non_infinite d rid) ts \<Longrightarrow>
   utransfers d ts = Some d' \<Longrightarrow>
   non_infinite_supply d' = non_infinite_supply d"
proof (induction ts arbitrary: d)
  case Nil
  then show ?case by simp
next
  case (Cons t ts)
  obtain fs sid rid amt where t: "t = (fs, sid, rid, amt)" by (cases t)
  from Cons.prems(3) obtain res d1 where
    step: "utransfer fs d sid rid amt = (Inr res, d1)" and rest: "utransfers d1 ts = Some d'"
    by (auto simp: t split: prod.splits sum.splits)
  from Cons.prems(2) have b: "non_infinite d sid" "non_infinite d rid"
    and bs: "list_all (\<lambda>(fs, sid, rid, amt). non_infinite d sid \<and> non_infinite d rid) ts"
    by (simp_all add: t)
  from utransfer_moves [OF Cons.prems(1) step] obtain x s r where
    s: "s \<in> set (uaccounts d)" "uaccount_id s = sid"
    and r: "r \<in> set (uaccounts d)" "uaccount_id r = rid"
    and sup: "non_infinite_supply d1 =
               non_infinite_supply d + (if uamount s = Unbounded then x else 0)
                 - (if uamount r = Unbounded then x else 0)"
    by blast
  from non_infinite_D [OF b(1) s] non_infinite_D [OF b(2) r] sup
  have eq: "non_infinite_supply d1 = non_infinite_supply d" by simp
  have d1: "distinct (map uaccount_id (uaccounts d1))"
    using Cons.prems(1) by (simp add: utransfer_ids [OF step])
  have "list_all (\<lambda>(fs, sid, rid, amt). non_infinite d1 sid \<and> non_infinite d1 rid) ts"
    using bs by (simp add: non_infinite_utransfer [OF step])
  from Cons.IH [OF d1 this rest] eq show ?case by simp
qed

lemma non_infinite_supply_ucreate_account:
  "non_infinite_supply (snd (ucreate_account fs d aid atype)) = non_infinite_supply d"
  by (simp add: ucreate_account_def uinsert_account_def uinsert_wallet_def non_infinite_supply_def
      split: sum.splits)

lemma non_infinite_supply_uinc_steal:
  "non_infinite_supply (snd (uinc_steal_use fs d u)) = non_infinite_supply d"
  "non_infinite_supply (snd (uinc_steal_success fs d u)) = non_infinite_supply d"
  by (simp_all add: uinc_steal_use_def uinc_steal_success_def non_infinite_supply_def Let_def)

text \<open>
  A transfer from an account with an unbounded balance succeeds for every finite amount and
  credits the receiver: the sum over the non-infinite accounts grows by the amount.
\<close>

theorem transfer_from_unbounded_account_counterexample:
  "utransfer [] udb_with_unbounded 3 2 (Finite 30)
     = (Inr \<lparr>usender_amount = Unbounded, ureceiver_amount = Bounded 30\<rparr>,
        \<lparr>uaccounts = [\<lparr>uaccount_id = 1, uaccount_type = 0, uamount = Bounded 100\<rparr>,
                      \<lparr>uaccount_id = 2, uaccount_type = 0, uamount = Bounded 30\<rparr>,
                      \<lparr>uaccount_id = 3, uaccount_type = 1, uamount = Unbounded\<rparr>],
         uwallets = uwallets udb_with_unbounded,
         utransactions = [\<lparr>tx_sender = 3, tx_receiver = 2, tx_amount = 30\<rparr>]\<rparr>)
   \<and> non_infinite_supply udb_with_unbounded = 100
   \<and> non_infinite_supply (snd (utransfer [] udb_with_unbounded 3 2 (Finite 30))) = 130"
  by code_simp

text \<open>
  C1, as amended. In a store with unique account ids: a sequence of successful transfers whose
  senders and receivers are non-infinite accounts leaves the sum of the amounts over the
  non-infinite accounts as it was; a successful transfer moves a finite amount, adds minus the
  amount to the sender's row and the amount to the receiver's row (an unbounded balance stays
  unbounded) and leaves every other row as it was, so that the sum over the non-infinite
  accounts grows by the amount when the sender only is an infinite account, falls by it when
  the receiver only is one, and is otherwise the same; and the creation of an account, which
  enters with the balance zero, and the increments of the steal counters leave the sum as it
  was, whatever their outcome.
\<close>

theorem transfers_conserve_non_infinite_supply:
  assumes "distinct (map uaccount_id (uaccounts d))"
  shows "(list_all (\<lambda>(fs, sid, rid, amt). non_infinite d sid \<and> non_infinite d rid) ts
            \<and> utransfers d ts = Some d' \<longrightarrow> non_infinite_supply d' = non_infinite_supply d)
       \<and> (utransfer fs d sid rid amt = (Inr res, d1) \<longrightarrow>
            (\<exists>x s r. amt = Finite x
               \<and> s \<in> set (uaccounts d) \<and> uaccount_id s = sid
               \<and> r \<in> set (uaccounts d) \<and> uaccount_id r = rid
               \<and> uaccounts d1 =
                   map (\<lambda>a. if uaccount_id a = sid
                             then a\<lparr>uamount := balance_plus (uamount a) (- x)\<rparr>
                             else if uaccount_id a = rid
                             then a\<lparr>uamount := balance_plus (uamount a) x\<rparr>
                             else a)
                     (uaccounts d)
               \<and> non_infinite_supply d1 =
                   non_infinite_supply d + (if uamount s = Unbounded then x else 0)
                     - (if uamount r = Unbounded then x else 0)))
       \<and> non_infinite_supply (snd (ucreate_account fs d aid atype)) = non_infinite_supply d
       \<and> non_infinite_supply (snd (uinc_steal_use fs d u)) = non_infinite_supply d
       \<and> non_infinite_supply (snd (uinc_steal_success fs d u)) = non_infinite_supply d"
  using utransfers_conserve [OF assms, of ts d'] utransfer_moves [OF assms, of fs sid rid amt res d1]
    non_infinite_supply_ucreate_account [of fs d aid atype]
    non_infinite_supply_uinc_steal [of fs d u]
  by blast

theorem transfers_conserve_non_infinite_supply_witness:
  "utransfers udb_with_unbounded [([], 1, 2, Finite 30), ([], 2, 1, Finite 10)]
     = Some \<lparr>uaccounts = [\<lparr>uaccount_id = 1, uaccount_type = 0, uamount = Bounded 80\<rparr>,
                           \<lparr>uaccount_id = 2, uaccount_type = 0, uamount = Bounded 20\<rparr>,
                           \<lparr>uaccount_id = 3, uaccount_type = 1, uamount = Unbounded\<rparr>],
              uwallets = uwallets udb_with_unbounded,
              utransactions = [\<lparr>tx_sender = 1, tx_receiver = 2, tx_amount = 30\<rparr>,
                               \<lparr>tx_sender = 2, tx_receiver = 1, tx_amount = 10\<rparr>]\<rparr>
   \<and> non_infinite_supply
         \<lparr>uaccounts = [\<lparr>uaccount_id = 1, uaccount_type = 0, uamount = Bounded 80\<rparr>,
                       \<lparr>uaccount_id = 2, uaccount_type = 0, uamount = Bounded 20\<rparr>,
                       \<lparr>uaccount_id = 3, uaccount_type = 1, uamount = Unbounded\<rparr>],
          uwallets = uwallets udb_with_unbounded,
          utransactions = [\<lparr>tx_sender = 1, tx_receiver = 2, tx_amount = 30\<rparr>,
                           \<lparr>tx_sender = 2, tx_receiver = 1, tx_amount = 10\<rparr>]\<rparr>
       = non_infinite_supply udb_with_unbounded
   \<and> non_infinite_supply udb_with_unbounded = 100"
proof -
  have h: "distinct (map uaccount_id (uaccounts udb_with_unbounded))"
    by (simp add: udb_with_unbounded_def)
  have b: "list_all (\<lambda>(fs, sid, rid, amt).
              non_infinite udb_with_unbounded sid \<and> non_infinite udb_with_unbounded rid)
            [([], 1, 2, Finite 30), ([], 2, 1, Finite 10)]"
    by (simp add: non_infinite_def udb_with_unbounded_def)
  have t: "utransfers udb_with_unbounded [([], 1, 2, Finite 30), ([], 2, 1, Finite 10)]
     = Some \<lparr>uaccounts = [\<lparr>uaccount_id = 1, uaccount_type = 0, uamount = Bounded 80\<rparr>,
                           \<lparr>uaccount_id = 2, uaccount_type = 0, uamount = Bounded 20\<rparr>,
                           \<lparr>uaccount_id = 3, uaccount_type = 1, uamount = Unbounded\<rparr>],
              uwallets = uwallets udb_with_unbounded,
              utransactions = [\<lparr>tx_sender = 1, tx_receiver = 2, tx_amount = 30\<rparr>,
                               \<lparr>tx_sender = 2, tx_receiver = 1, tx_amount = 10\<rparr>]\<rparr>"
    by code_simp
  have s: "non_infinite_supply udb_with_unbounded = 100"
    by code_simp
  from transfers_conserve_non_infinite_supply [OF h] b t s show ?thesis by blast
qed

section \<open>Properties of create_account\<close>

text \<open>
  When the store answers, a fresh id of type USER gets its account row and its wallet row
  with zero-valued counters, and a fresh id of type TAXBANK gets its account row only.
\<close>

lemma create_account_pairing:
  assumes "aid \<notin> set (map account_id (accounts d))" and "\<not> fails fs 0" and "\<not> fails fs 1"
  shows "create_account fs d aid USER
           = (Inr ''1'',
              d\<lparr>accounts := accounts d @ [\<lparr>account_id = aid, account_type = USER, amount = 0\<rparr>],
                wallets := wallets d @
                  [\<lparr>user_id = aid, taxpaid = 0, steal_uses = 0, steal_success = 0\<rparr>]\<rparr>)"
    and "create_account fs d aid TAXBANK
           = (Inr ''1'',
              d\<lparr>accounts := accounts d @ [\<lparr>account_id = aid, account_type = TAXBANK, amount = 0\<rparr>]\<rparr>)"
  using assms
  by (simp_all add: create_account_def insert_account_def insert_wallet_def USER_def TAXBANK_def)

text \<open>
  C6. The two inserts are two statements committed one by one, not one transaction. When
  the first succeeds and the second fails, \<open>create_account\<close> of a USER raises and leaves
  the account row without a wallet row: one row of the pair exists, the other does not.
\<close>

theorem create_account_wallet_insert_fails:
  "create_account [False, True] db_empty 42 USER
     = (Inl StoreError,
        \<lparr>accounts = [\<lparr>account_id = 42, account_type = 0, amount = 0\<rparr>],
         wallets = [], transactions = []\<rparr>)"
  by code_simp

section \<open>Properties of inc_steal_use and inc_steal_success\<close>

text \<open>
  C7. When the store answers the update: if no wallet row has the given \<open>user_id\<close>, each of
  the two handlers answers \<open>success = False\<close>, raises nothing and leaves the store as it
  was; if a wallet row has it, the handler answers \<open>success = True\<close> and the store differs
  only in that the handler's counter is greater by exactly 1 in every wallet row with that
  \<open>user_id\<close>.
\<close>

theorem inc_steal_counts_matching_wallets:
  assumes "\<not> fails fs 0"
  shows "(u \<notin> set (map user_id (wallets d)) \<longrightarrow>
            inc_steal_use fs d u = (Inr False, d) \<and> inc_steal_success fs d u = (Inr False, d))
       \<and> (u \<in> set (map user_id (wallets d)) \<longrightarrow>
            inc_steal_use fs d u =
              (Inr True,
               d\<lparr>wallets := map (\<lambda>w. if user_id w = u then w\<lparr>steal_uses := steal_uses w + 1\<rparr> else w)
                                (wallets d)\<rparr>)
          \<and> inc_steal_success fs d u =
              (Inr True,
               d\<lparr>wallets := map (\<lambda>w. if user_id w = u
                                       then w\<lparr>steal_success := steal_success w + 1\<rparr> else w)
                                (wallets d)\<rparr>))"
proof (intro conjI impI)
  assume no: "u \<notin> set (map user_id (wallets d))"
  then have none: "filter (\<lambda>w. user_id w = u) (wallets d) = []"
    by (auto simp: filter_empty_conv)
  have same: "map (\<lambda>w. if user_id w = u then g w else w) (wallets d) = wallets d" for g
    using no by (intro map_idI) auto
  show "inc_steal_use fs d u = (Inr False, d)"
    using assms by (simp add: inc_steal_use_def none same)
  show "inc_steal_success fs d u = (Inr False, d)"
    using assms by (simp add: inc_steal_success_def none same)
next
  assume "u \<in> set (map user_id (wallets d))"
  then have some: "filter (\<lambda>w. user_id w = u) (wallets d) \<noteq> []"
    by (auto simp: filter_empty_conv)
  show "inc_steal_use fs d u =
      (Inr True,
       d\<lparr>wallets := map (\<lambda>w. if user_id w = u then w\<lparr>steal_uses := steal_uses w + 1\<rparr> else w)
                        (wallets d)\<rparr>)"
    using assms some by (simp add: inc_steal_use_def)
  show "inc_steal_success fs d u =
      (Inr True,
       d\<lparr>wallets := map (\<lambda>w. if user_id w = u
                               then w\<lparr>steal_success := steal_success w + 1\<rparr> else w)
                        (wallets d)\<rparr>)"
    using assms some by (simp add: inc_steal_success_def)
qed

theorem inc_steal_counts_matching_wallets_witness:
  "inc_steal_use [] db_user_and_taxbank 1
     = (Inr True,
        db_user_and_taxbank
          \<lparr>wallets := [\<lparr>user_id = 1, taxpaid = 0, steal_uses = 3, steal_success = 1\<rparr>]\<rparr>)
   \<and> inc_steal_success [] db_user_and_taxbank 1
     = (Inr True,
        db_user_and_taxbank
          \<lparr>wallets := [\<lparr>user_id = 1, taxpaid = 0, steal_uses = 2, steal_success = 2\<rparr>]\<rparr>)
   \<and> inc_steal_use [] db_user_and_taxbank 2 = (Inr False, db_user_and_taxbank)
   \<and> inc_steal_success [] db_user_and_taxbank 2 = (Inr False, db_user_and_taxbank)"
  using inc_steal_counts_matching_wallets [of "[]" 1 db_user_and_taxbank]
    inc_steal_counts_matching_wallets [of "[]" 2 db_user_and_taxbank]
  by (simp add: db_user_and_taxbank_def)

section \<open>Properties of get_sums\<close>

lemma sum_list_filter_split:
  fixes f :: "'a \<Rightarrow> rat"
  shows "sum_list (map f xs) = sum_list (map f (filter P xs)) + sum_list (map f (filter (\<lambda>a. \<not> P a) xs))"
  by (induction xs) simp_all

lemma null_as_zero_sql_sum [simp]: "null_as_zero (sql_sum xs) = sum_list xs"
  by (simp add: sql_sum_def)

lemma filter_two_types:
  assumes "\<forall>a \<in> set xs. account_type a = USER \<or> account_type a = TAXBANK"
  shows "filter (\<lambda>a. \<not> account_type a = USER) xs = filter (\<lambda>a. account_type a = TAXBANK) xs"
  using assms by (intro filter_cong) (auto simp: USER_def TAXBANK_def)

text \<open>
  \<open>create_account\<close> takes any integer as the account type. An account of a third type counts
  in the total and in neither of the two sums by type: in \<open>db_third_type\<close> the total is 100,
  the sum of the USER accounts is 70 and there is no TAXBANK account.
\<close>

theorem get_sums_counterexample:
  "get_sums [] db_third_type = Inr \<lparr>gdp = Some 100, user = Some 70, taxbank = None\<rparr>
   \<and> null_as_zero (Some 100) \<noteq> null_as_zero (Some 70) + null_as_zero None"
  by code_simp

text \<open>
  C8, as amended. In every state of the store in which every account is of type USER or
  TAXBANK, the three sums that \<open>get_sums\<close> reads from this one state satisfy
  \<open>gdp = user + taxbank\<close>, a sum over no rows (NULL) being read as zero.
\<close>

theorem get_sums_gdp_is_user_plus_taxbank:
  assumes "\<forall>a \<in> set (accounts d). account_type a = USER \<or> account_type a = TAXBANK"
    and "get_sums fs d = Inr s"
  shows "null_as_zero (gdp s) = null_as_zero (user s) + null_as_zero (taxbank s)"
proof -
  from assms(2) have s:
    "s = \<lparr>gdp = sql_sum (map amount (accounts d)),
          user = sql_sum (map amount (filter (\<lambda>a. account_type a = USER) (accounts d))),
          taxbank = sql_sum (map amount (filter (\<lambda>a. account_type a = TAXBANK) (accounts d)))\<rparr>"
    by (auto simp: get_sums_def get_gdp_def getsum_def split: if_splits)
  have "sum_list (map amount (accounts d))
        = sum_list (map amount (filter (\<lambda>a. account_type a = USER) (accounts d)))
          + sum_list (map amount (filter (\<lambda>a. \<not> account_type a = USER) (accounts d)))"
    by (rule sum_list_filter_split)
  then show ?thesis
    by (simp add: s filter_two_types [OF assms(1)])
qed

theorem get_sums_gdp_is_user_plus_taxbank_witness:
  "get_sums [] db_user_and_taxbank = Inr \<lparr>gdp = Some 100, user = Some 70, taxbank = Some 30\<rparr>
   \<and> null_as_zero (Some 100) = null_as_zero (Some 70) + null_as_zero (Some 30)"
proof -
  have g: "get_sums [] db_user_and_taxbank
           = Inr \<lparr>gdp = Some 100, user = Some 70, taxbank = Some 30\<rparr>"
    by code_simp
  have "\<forall>a \<in> set (accounts db_user_and_taxbank). account_type a = USER \<or> account_type a = TAXBANK"
    by (simp add: db_user_and_taxbank_def USER_def TAXBANK_def)
  from get_sums_gdp_is_user_plus_taxbank [OF this g] g show ?thesis by simp
qed

section \<open>Properties of get_wallet\<close>

text \<open>
  C10. When the account rows of \<open>aid\<close> exist and are of type USER, and no wallet row has
  \<open>user_id = aid\<close>, \<open>get_wallet\<close> returns no view and does not raise
  \<open>AccountNotFoundError\<close>, whatever the store does; when the store answers both queries,
  it raises the internal \<open>TypeError\<close> of \<^verbatim>\<open>dict(None)\<close>, since the merge
  \<^verbatim>\<open>daccount.update(dict(wallet))\<close> is applied to the query result unconditionally.
\<close>

theorem get_wallet_user_without_wallet:
  assumes "\<exists>a \<in> set (accounts d). account_id a = aid"
    and "\<forall>a \<in> set (accounts d). account_id a = aid \<longrightarrow> account_type a = USER"
    and "\<forall>w \<in> set (wallets d). user_id w \<noteq> aid"
  shows "(\<forall>v. get_wallet fs d aid \<noteq> Inr v)
       \<and> (\<forall>m. get_wallet fs d aid \<noteq> Inl (AccountNotFoundError m))
       \<and> (\<not> fails fs 0 \<and> \<not> fails fs 1 \<longrightarrow> get_wallet fs d aid = Inl TypeError)"
proof -
  from assms(1) have "filter (\<lambda>a. account_id a = aid) (accounts d) \<noteq> []"
    by (auto simp: filter_empty_conv)
  then obtain acc where acc: "fetchrow (filter (\<lambda>a. account_id a = aid) (accounts d)) = Some acc"
    by (cases "filter (\<lambda>a. account_id a = aid) (accounts d)") auto
  from fetchrow_Some_mem [OF acc] assms(2) have user: "account_type acc = USER"
    by auto
  from assms(3) have "filter (\<lambda>w. user_id w = aid) (wallets d) = []"
    by (auto simp: filter_empty_conv)
  then have nowallet:
    "fetchrow (map wallet_cols_of (filter (\<lambda>w. user_id w = aid) (wallets d))) = None"
    by simp
  show ?thesis
    by (simp add: get_wallet_def acc user nowallet)
qed

theorem get_wallet_user_without_wallet_witness:
  "(\<exists>a \<in> set (accounts db_orphan_user). account_id a = 42)
   \<and> wallets db_orphan_user = []
   \<and> get_wallet [] db_orphan_user 42 = Inl TypeError"
  using get_wallet_user_without_wallet [of db_orphan_user 42 "[]"]
  by (simp add: db_orphan_user_def USER_def fails_def)

end
